theory Spec2Isabelle
  imports Complex_Main "HOL-Library.Monad_Syntax"
begin

section \<open>Strings\<close>

text \<open>
  JavaScript strings are modelled as \<^typ>\<open>string\<close>, a list of characters. Case mapping and
  the whitespace class are those of the ASCII range: the letters A to Z and a to z, and
  the characters TAB, LF, VT, FF, CR and SPACE (the ASCII members of the class that
  \<^verbatim>\<open>trim\<close> and the regular expression \<^verbatim>\<open>\s\<close> share). Any other character is
  carried unchanged and is not whitespace.
\<close>

definition isSpace :: "char \<Rightarrow> bool" where
  "isSpace c = (let n = (of_char c :: nat) in (9 \<le> n \<and> n \<le> 13) \<or> n = 32)"

definition lowerChar :: "char \<Rightarrow> char" where
  "lowerChar c =
     (let n = (of_char c :: nat) in if 65 \<le> n \<and> n \<le> 90 then char_of (n + 32) else c)"

definition upperChar :: "char \<Rightarrow> char" where
  "upperChar c =
     (let n = (of_char c :: nat) in if 97 \<le> n \<and> n \<le> 122 then char_of (n - 32) else c)"

definition toLowerCase :: "string \<Rightarrow> string" where
  "toLowerCase s = map lowerChar s"

definition toUpperCase :: "string \<Rightarrow> string" where
  "toUpperCase s = map upperChar s"

definition trim :: "string \<Rightarrow> string" where
  "trim s = rev (dropWhile isSpace (rev (dropWhile isSpace s)))"

text \<open>\<^verbatim>\<open>s.charAt(i)\<close>: the one-character string at index \<open>i\<close>, the empty string out of range.\<close>

definition charAt :: "string \<Rightarrow> nat \<Rightarrow> string" where
  "charAt s i = (if i < length s then [s ! i] else [])"

text \<open>
  \<^verbatim>\<open>x || d\<close> on a value that is a string or absent: the default replaces every falsy
  value, that is the absent one and the empty string.
\<close>

definition orElse :: "string option \<Rightarrow> string \<Rightarrow> string" where
  "orElse x d = (case x of None \<Rightarrow> d | Some s \<Rightarrow> if s = [] then d else s)"

section \<open>Utilities of the application\<close>

text \<open>
  \<^verbatim>\<open>const normalizePostcode = (pc) => pc ? pc.replace(/\s+/g, '').toUpperCase() : '';\<close>
  Removing every maximal run of whitespace is removing every whitespace character.
\<close>

definition normalizePostcode :: "string \<Rightarrow> string" where
  "normalizePostcode pc =
     (if pc \<noteq> [] then toUpperCase (filter (\<lambda>c. \<not> isSpace c) pc) else [])"

subsection \<open>The distance matrix\<close>

text \<open>
  The matrix of \<^verbatim>\<open>getLevenshteinDistance\<close> is an array of arrays of numbers. An array is
  a list; \<open>load\<close> reads an index and gives \<open>None\<close> for \<^verbatim>\<open>undefined\<close>; \<open>store\<close> writes an
  index, updating in range and extending by one at the end. A write further out would
  leave holes in the array: \<open>store\<close> gives \<open>None\<close> there, and so does every function built
  on it, so that \<open>None\<close> stands for a run that reads \<^verbatim>\<open>undefined\<close> or makes an array
  sparse. The lemmas below show that no run does.
\<close>

type_synonym matrix = "nat list list"

definition load :: "'a list \<Rightarrow> nat \<Rightarrow> 'a option" where
  "load xs i = (if i < length xs then Some (xs ! i) else None)"

definition store :: "'a list \<Rightarrow> nat \<Rightarrow> 'a \<Rightarrow> 'a list option" where
  "store xs i v =
     (if i < length xs then Some (xs[i := v])
      else if i = length xs then Some (xs @ [v])
      else None)"

text \<open>\<^verbatim>\<open>matrix[i][j]\<close> and \<^verbatim>\<open>matrix[i][j] = v\<close>.\<close>

definition cell :: "matrix \<Rightarrow> nat \<Rightarrow> nat \<Rightarrow> nat option" where
  "cell m i j = do { r \<leftarrow> load m i; load r j }"

definition set_cell :: "matrix \<Rightarrow> nat \<Rightarrow> nat \<Rightarrow> nat \<Rightarrow> matrix option" where
  "set_cell m i j v = do { r \<leftarrow> load m i; r' \<leftarrow> store r j v; store m i r' }"

text \<open>\<^verbatim>\<open>for (let i = 0; i <= b.length; i++) matrix[i] = [i];\<close> with \<open>n\<close> for \<^verbatim>\<open>b.length\<close>.\<close>

function init_rows :: "nat \<Rightarrow> nat \<Rightarrow> matrix \<Rightarrow> matrix option" where
  "init_rows i n m =
     (if i \<le> n then do { m' \<leftarrow> store m i [i]; init_rows (i + 1) n m' } else Some m)"
  by pat_completeness auto
termination
  by (relation "measure (\<lambda>(i, n, m). Suc n - i)") auto

declare init_rows.simps [simp del]

text \<open>\<^verbatim>\<open>for (let j = 0; j <= a.length; j++) matrix[0][j] = j;\<close> with \<open>n\<close> for \<^verbatim>\<open>a.length\<close>.\<close>

function init_cols :: "nat \<Rightarrow> nat \<Rightarrow> matrix \<Rightarrow> matrix option" where
  "init_cols j n m =
     (if j \<le> n then do { m' \<leftarrow> set_cell m 0 j j; init_cols (j + 1) n m' } else Some m)"
  by pat_completeness auto
termination
  by (relation "measure (\<lambda>(j, n, m). Suc n - j)") auto

declare init_cols.simps [simp del]

text \<open>
  The body of the inner loop computes the value of \<^verbatim>\<open>matrix[i][j]\<close>:
  the diagonal neighbour when the two characters agree, otherwise
  \<^verbatim>\<open>Math.min(matrix[i-1][j-1] + 1, matrix[i][j-1] + 1, matrix[i-1][j] + 1)\<close>.
\<close>

definition new_cell :: "string \<Rightarrow> string \<Rightarrow> matrix \<Rightarrow> nat \<Rightarrow> nat \<Rightarrow> nat option" where
  "new_cell a b m i j =
     (if charAt b (i - 1) = charAt a (j - 1) then cell m (i - 1) (j - 1)
      else do {
        x \<leftarrow> cell m (i - 1) (j - 1);
        y \<leftarrow> cell m i (j - 1);
        z \<leftarrow> cell m (i - 1) j;
        Some (min (x + 1) (min (y + 1) (z + 1)))
      })"

text \<open>\<^verbatim>\<open>for (let j = ...; j <= a.length; j++) { ... }\<close>, entered with \<open>j = 1\<close>.\<close>

function inner_loop :: "string \<Rightarrow> string \<Rightarrow> nat \<Rightarrow> nat \<Rightarrow> matrix \<Rightarrow> matrix option" where
  "inner_loop a b i j m =
     (if j \<le> length a
      then do { v \<leftarrow> new_cell a b m i j; m' \<leftarrow> set_cell m i j v; inner_loop a b i (j + 1) m' }
      else Some m)"
  by pat_completeness auto
termination
  by (relation "measure (\<lambda>(a, b, i, j, m). Suc (length a) - j)") auto

declare inner_loop.simps [simp del]

text \<open>\<^verbatim>\<open>for (let i = ...; i <= b.length; i++) { for (let j = 1; ...) ... }\<close>, entered with \<open>i = 1\<close>.\<close>

function outer_loop :: "string \<Rightarrow> string \<Rightarrow> nat \<Rightarrow> matrix \<Rightarrow> matrix option" where
  "outer_loop a b i m =
     (if i \<le> length b
      then do { m' \<leftarrow> inner_loop a b i 1 m; outer_loop a b (i + 1) m' }
      else Some m)"
  by pat_completeness auto
termination
  by (relation "measure (\<lambda>(a, b, i, m). Suc (length b) - i)") auto

declare outer_loop.simps [simp del]

text \<open>
  \<^verbatim>\<open>getLevenshteinDistance(a, b)\<close>: \<^verbatim>\<open>if (!a || !b) return 0;\<close> then the three loops and
  \<^verbatim>\<open>return matrix[b.length][a.length];\<close>.
\<close>

definition getLevenshteinDistance :: "string \<Rightarrow> string \<Rightarrow> nat option" where
  "getLevenshteinDistance a b =
     (if a = [] \<or> b = [] then Some 0
      else do {
        m1 \<leftarrow> init_rows 0 (length b) [];
        m2 \<leftarrow> init_cols 0 (length a) m1;
        m3 \<leftarrow> outer_loop a b 1 m2;
        cell m3 (length b) (length a)
      })"

subsection \<open>Similarity\<close>

text \<open>
  A JavaScript number is modelled as an exact rational, with \<open>None\<close> for \<^verbatim>\<open>NaN\<close>: the
  rounding of IEEE doubles is not part of the model. A quotient by zero and a distance
  that is not a number give \<^verbatim>\<open>NaN\<close>.
\<close>

type_synonym number = "rat option"

definition calculateSimilarity :: "string \<Rightarrow> string \<Rightarrow> number" where
  "calculateSimilarity str1 str2 =
     (let s1 = trim (toLowerCase (orElse (Some str1) []));
          s2 = trim (toLowerCase (orElse (Some str2) []))
      in if s1 = s2 then Some 100
         else if s1 = [] \<or> s2 = [] then Some 0
         else (case getLevenshteinDistance s1 s2 of
                 None \<Rightarrow> None
               | Some distance \<Rightarrow>
                   (let longest = max (length s1) (length s2)
                    in if longest = 0 then None
                       else Some (((of_nat longest - of_nat distance) / of_nat longest) * 100))))"

text \<open>\<^verbatim>\<open>x >= t\<close> on numbers: false when \<open>x\<close> is \<^verbatim>\<open>NaN\<close>.\<close>

definition num_ge :: "number \<Rightarrow> rat \<Rightarrow> bool" where
  "num_ge x t = (case x of None \<Rightarrow> False | Some r \<Rightarrow> t \<le> r)"

text \<open>
  \<^verbatim>\<open>x.toFixed(0)\<close>: the decimal digits of the integer nearest to \<open>x\<close>, the larger one
  at a tie, after the sign; \<^verbatim>\<open>"NaN"\<close> for \<^verbatim>\<open>NaN\<close>.
\<close>

function decimal :: "nat \<Rightarrow> string" where
  "decimal n = (if n < 10 then [char_of (48 + n)] else decimal (n div 10) @ [char_of (48 + n mod 10)])"
  by pat_completeness auto
termination
  by (relation "measure id") auto

declare decimal.simps [simp del]

definition toFixed0 :: "number \<Rightarrow> string" where
  "toFixed0 x =
     (case x of
        None \<Rightarrow> ''NaN''
      | Some r \<Rightarrow>
          if r < 0 then ''-'' @ decimal (nat \<lfloor>- r + 1 / 2\<rfloor>) else decimal (nat \<lfloor>r + 1 / 2\<rfloor>))"

section \<open>The matching logic\<close>

text \<open>The registration form's state \<^verbatim>\<open>regData\<close>: every field is a string.\<close>

record regData =
  firstName :: string
  lastName :: string
  dob :: string
  houseNo :: string
  street :: string
  flat :: string
  postcode :: string
  city :: string

text \<open>
  The provider's payload \<^verbatim>\<open>jumioData\<close>: an object whose \<^verbatim>\<open>document\<close>, the document's
  \<^verbatim>\<open>address\<close> and every field may be absent; a field that is present is a string.
\<close>

record jumioAddress =
  postalCode :: "string option"
  line1 :: "string option"
  city_j :: "string option"

record jumioDocument =
  firstName_j :: "string option"
  lastName_j :: "string option"
  dob_j :: "string option"
  address :: "jumioAddress option"
  type_j :: "string option"
  issuingCountry :: "string option"

record jumioData =
  document :: "jumioDocument option"

text \<open>The local object \<^verbatim>\<open>docData\<close>.\<close>

record docData =
  firstName_d :: string
  lastName_d :: string
  dob_d :: string
  postcode_d :: string
  addressLine :: string
  city_d :: string
  type_d :: string
  country :: string

record fieldCheck =
  field :: string
  reg :: string
  doc :: string
  match :: bool
  message :: string

record report =
  passed :: bool
  checks :: "fieldCheck list"

text \<open>\<^verbatim>\<open>report.checks.push(c)\<close>.\<close>

definition push :: "report \<Rightarrow> fieldCheck \<Rightarrow> report" where
  "push r c = r\<lparr>checks := checks r @ [c]\<rparr>"

definition prepareDocData :: "jumioData \<Rightarrow> docData" where
  "prepareDocData jd =
     \<lparr>firstName_d = orElse (document jd \<bind> firstName_j) [],
      lastName_d = orElse (document jd \<bind> lastName_j) [],
      dob_d = orElse (document jd \<bind> dob_j) [],
      postcode_d = orElse (document jd \<bind> address \<bind> postalCode) [],
      addressLine = orElse (document jd \<bind> address \<bind> line1) [],
      city_d = orElse (document jd \<bind> address \<bind> city_j) [],
      type_d = orElse (document jd \<bind> type_j) ''UNKNOWN'',
      country = orElse (document jd \<bind> issuingCountry) ''UNKNOWN''\<rparr>"

definition performMatching :: "regData \<Rightarrow> jumioData \<Rightarrow> report" where
  "performMatching rd jd =
     (let dd = prepareDocData jd;
          regFullAddress = trim (houseNo rd @ '' '' @ street rd);
          r0 = \<lparr>passed = False, checks = []\<rparr>;
          dobMatch = (dob rd = dob_d dd);
          r1 = push r0 \<lparr>field = ''Date of Birth'', reg = dob rd, doc = dob_d dd, match = dobMatch,
                  message = (if dobMatch then ''Match'' else ''Mismatch'')\<rparr>;
          regPC = normalizePostcode (postcode rd);
          docPC = normalizePostcode (postcode_d dd);
          pcMatch = (regPC = docPC);
          r2 = push r1 \<lparr>field = ''Postcode'', reg = regPC, doc = docPC, match = pcMatch,
                  message = (if pcMatch then ''Match'' else ''Mismatch'')\<rparr>;
          lnSim = calculateSimilarity (lastName rd) (lastName_d dd);
          lnMatch = num_ge lnSim 85;
          r3 = push r2 \<lparr>field = ''Last Name'', reg = lastName rd, doc = lastName_d dd,
                  match = lnMatch, message = ''Similarity: '' @ toFixed0 lnSim @ ''%''\<rparr>;
          fnSim = calculateSimilarity (firstName rd) (firstName_d dd);
          fnMatch = num_ge fnSim 85;
          r4 = push r3 \<lparr>field = ''First Name'', reg = firstName rd, doc = firstName_d dd,
                  match = fnMatch, message = ''Similarity: '' @ toFixed0 fnSim @ ''%''\<rparr>;
          adSim = calculateSimilarity regFullAddress (addressLine dd);
          adMatch = num_ge adSim 70;
          r5 = push r4 \<lparr>field = ''Address Match'', reg = regFullAddress, doc = addressLine dd,
                  match = adMatch, message = ''Similarity: '' @ toFixed0 adSim @ ''%''\<rparr>;
          citySim = calculateSimilarity (city rd) (city_d dd);
          cityMatch = num_ge citySim 80;
          r6 = push r5 \<lparr>field = ''City'', reg = city rd, doc = city_d dd, match = cityMatch,
                  message = ''Similarity: '' @ toFixed0 citySim @ ''%''\<rparr>;
          isUKDL = (type_d dd = ''DRIVING_LICENSE'' \<and> country dd = ''GBR'');
          r7 = (if \<not> isUKDL
                then push r6 \<lparr>field = ''Document Rules'', reg = ''UK Logic'',
                        doc = country dd @ '' '' @ type_d dd, match = False,
                        message = ''Non-UK Driving License. Proof of Address required.''\<rparr>
                else push r6 \<lparr>field = ''Document Rules'', reg = ''UK Logic'',
                        doc = ''UK Driving License'', match = True,
                        message = ''Address verified via License.''\<rparr>);
          docValid = (if \<not> isUKDL then False else True)
      in r7\<lparr>passed := dobMatch \<and> pcMatch \<and> lnMatch \<and> fnMatch \<and> adMatch \<and> docValid\<rparr>)"

section \<open>The relay\<close>

text \<open>
  The environment of the worker: each credential is a string or absent. A test \<^verbatim>\<open>!x\<close>
  holds for the absent value and for the empty string.
\<close>

record env =
  JUMIO_TOKEN :: "string option"
  JUMIO_SECRET :: "string option"

definition falsy :: "string option \<Rightarrow> bool" where
  "falsy x = (case x of None \<Rightarrow> True | Some s \<Rightarrow> s = [])"

text \<open>The result of an awaited call: its value, or the message of the error it throws.\<close>

datatype 'a outcome = Resolved 'a | Rejected string

text \<open>
  A request: its \<^verbatim>\<open>method\<close>, the query parameters of its URL in order, and the result of
  \<^verbatim>\<open>await request.json()\<close> followed by the read of \<^verbatim>\<open>body.userEmail\<close> (the field may be
  absent; either step may throw).
\<close>

record request =
  requestMethod :: string
  searchParams :: "(string \<times> string) list"
  json :: "string option outcome"

text \<open>
  A call of \<^verbatim>\<open>fetch\<close>: the URL, the method, the two credentials that
  \<^verbatim>\<open>btoa\<close> encodes into the Authorization header, and the fields of the JSON body.
\<close>

record fetchCall =
  url :: string
  fetchMethod :: string
  basicAuth :: "string \<times> string"
  fetchBody :: "(string \<times> string) list"

text \<open>
  The body of a response: \<^verbatim>\<open>JSON.stringify({ error: msg })\<close>, \<^verbatim>\<open>JSON.stringify(data)\<close>
  for the upstream's data, or a plain text. \<open>headers\<close> are the ones passed to the
  constructor; the status is 200 when none is passed.
\<close>

datatype content = ErrorJson string | DataJson string | Plain string

record response =
  status :: nat
  headers :: "(string \<times> string) list"
  body :: content

definition DATACENTER :: string where
  "DATACENTER = ''https://netverify.com/api/v4''"

text \<open>
  \<^verbatim>\<open>onRequest(context)\<close>. The value of \<^verbatim>\<open>crypto.randomUUID()\<close> and the upstream are
  parameters: \<open>upstream c\<close> is the result of \<^verbatim>\<open>await fetch(...)\<close> followed by
  \<^verbatim>\<open>await response.json()\<close> for the call \<open>c\<close>. The result is \<open>Inl msg\<close> when an
  exception leaves the function, which only the GET branch allows: it has no
  \<^verbatim>\<open>try\<close>. The pair \<open>auth\<close> stands for \<^verbatim>\<open>btoa(`${JUMIO_TOKEN}:${JUMIO_SECRET}`)\<close>, which
  does not throw on the characters of the model.
\<close>

definition onRequest ::
  "env \<Rightarrow> request \<Rightarrow> string \<Rightarrow> (fetchCall \<Rightarrow> string outcome) \<Rightarrow> string + response" where
  "onRequest e rq uuid upstream =
     (if falsy (JUMIO_TOKEN e) \<or> falsy (JUMIO_SECRET e)
      then Inr \<lparr>status = 500, headers = [], body = ErrorJson ''Missing API Keys in Cloudflare''\<rparr>
      else
        let auth = (orElse (JUMIO_TOKEN e) [], orElse (JUMIO_SECRET e) []) in
        if requestMethod rq = ''POST'' then
          (case json rq of
             Rejected msg \<Rightarrow> Inr \<lparr>status = 500, headers = [], body = ErrorJson msg\<rparr>
           | Resolved userEmail \<Rightarrow>
               (case upstream
                   \<lparr>url = DATACENTER @ ''/initiate'', fetchMethod = ''POST'', basicAuth = auth,
                    fetchBody =
                      [(''customerInternalReference'', uuid),
                       (''userReference'', orElse userEmail ''guest_user''),
                       (''successUrl'', ''https://example.com/success''),
                       (''errorUrl'', ''https://example.com/error'')]\<rparr> of
                  Rejected msg \<Rightarrow> Inr \<lparr>status = 500, headers = [], body = ErrorJson msg\<rparr>
                | Resolved data \<Rightarrow>
                    Inr \<lparr>status = 200, headers = [(''Content-Type'', ''application/json'')],
                         body = DataJson data\<rparr>))
        else if requestMethod rq = ''GET'' then
          (let scanRef = map_of (searchParams rq) ''scanReference'' in
           if falsy scanRef
           then Inr \<lparr>status = 400, headers = [], body = Plain ''Missing Reference''\<rparr>
           else
             (case upstream
                 \<lparr>url = DATACENTER @ ''/transactions/'' @ orElse scanRef [], fetchMethod = ''GET'',
                  basicAuth = auth, fetchBody = []\<rparr> of
                Rejected msg \<Rightarrow> Inl msg
              | Resolved data \<Rightarrow>
                  Inr \<lparr>status = 200, headers = [(''Content-Type'', ''application/json'')],
                       body = DataJson data\<rparr>))
        else Inr \<lparr>status = 405, headers = [], body = Plain ''Method not allowed''\<rparr>)"

section \<open>Edit distance as the specification words it\<close>

text \<open>
  One single-character insertion, deletion or substitution, at any position of the
  string.
\<close>

inductive edit1 :: "string \<Rightarrow> string \<Rightarrow> bool" where
  insertion: "edit1 (u @ v) (u @ c # v)"
| deletion: "edit1 (u @ c # v) (u @ v)"
| substitution: "edit1 (u @ c # v) (u @ d # v)"

text \<open>\<open>edits n s t\<close>: a sequence of \<open>n\<close> such operations transforms \<open>s\<close> into \<open>t\<close>.\<close>

inductive edits :: "nat \<Rightarrow> string \<Rightarrow> string \<Rightarrow> bool" where
  none: "edits 0 s s"
| more: "edits n s t \<Longrightarrow> edit1 t u \<Longrightarrow> edits (Suc n) s u"

text \<open>The edit distance is the minimum number of operations.\<close>

definition is_edit_distance :: "nat \<Rightarrow> string \<Rightarrow> string \<Rightarrow> bool" where
  "is_edit_distance d s t = (edits d s t \<and> (\<forall>n. edits n s t \<longrightarrow> d \<le> n))"

text \<open>The classic recurrence of dynamic programming, at unit cost and without transposition.\<close>

fun lev :: "string \<Rightarrow> string \<Rightarrow> nat" where
  "lev [] t = length t"
| "lev (x # s) [] = Suc (length s)"
| "lev (x # s) (y # t) =
     min (lev s t + (if x = y then 0 else 1)) (min (lev (x # s) t + 1) (lev s (y # t) + 1))"

text \<open>
  The similarity of the specification, on the normalised strings and with the distance
  \<open>d\<close> between them.
\<close>

definition Similarity_spec :: "string \<Rightarrow> string \<Rightarrow> nat \<Rightarrow> rat" where
  "Similarity_spec s1 s2 d =
     (if s1 = s2 then 100
      else if s1 = [] \<or> s2 = [] then 0
      else 100 * (of_nat (max (length s1) (length s2)) - of_nat d)
             / of_nat (max (length s1) (length s2)))"

text \<open>The matrix that the loops build: cell \<open>(i, j)\<close> relates two prefixes.\<close>

definition dist :: "string \<Rightarrow> string \<Rightarrow> nat \<Rightarrow> nat \<Rightarrow> nat" where
  "dist a b i j = lev (take i b) (take j a)"

definition full_row :: "string \<Rightarrow> string \<Rightarrow> nat \<Rightarrow> nat list" where
  "full_row a b i = map (dist a b i) [0..<Suc (length a)]"

section \<open>Properties of the edit distance\<close>

lemma edit1_sym: "edit1 s t \<Longrightarrow> edit1 t s"
  by (induction rule: edit1.induct) (auto intro: edit1.intros)

lemma edit1_rev: "edit1 s t \<Longrightarrow> edit1 (rev s) (rev t)"
proof (induction rule: edit1.induct)
  case (insertion u v c)
  show ?case using edit1.insertion [of "rev v" "rev u" c] by simp
next
  case (deletion u c v)
  show ?case using edit1.deletion [of "rev v" c "rev u"] by simp
next
  case (substitution u c v d)
  show ?case using edit1.substitution [of "rev v" c "rev u" d] by simp
qed

lemma edit1_Cons: "edit1 s t \<Longrightarrow> edit1 (x # s) (x # t)"
proof (induction rule: edit1.induct)
  case (insertion u v c)
  show ?case using edit1.insertion [of "x # u" v c] by simp
next
  case (deletion u c v)
  show ?case using edit1.deletion [of "x # u" c v] by simp
next
  case (substitution u c v d)
  show ?case using edit1.substitution [of "x # u" c v d] by simp
qed

lemma edit1_ins_head: "edit1 s (c # s)"
  using edit1.insertion [of "[]" s c] by simp

lemma edit1_del_head: "edit1 (c # s) s"
  using edit1.deletion [of "[]" c s] by simp

lemma edit1_sub_head: "edit1 (c # s) (d # s)"
  using edit1.substitution [of "[]" c s d] by simp

lemma edit1_Nil: "edit1 [] t \<Longrightarrow> \<exists>c. t = [c]"
  by (erule edit1.cases) auto

lemma edit1_Cons_cases:
  assumes "edit1 (y # s) t"
  shows "t = s \<or> (\<exists>c. t = c # y # s) \<or> (\<exists>d. t = d # s) \<or> (\<exists>t'. t = y # t' \<and> edit1 s t')"
  using assms
proof (cases rule: edit1.cases)
  case (insertion u v c)
  then show ?thesis
    by (cases u) (auto intro: edit1.insertion)
next
  case (deletion u c v)
  then show ?thesis
    by (cases u) (auto intro: edit1.deletion)
next
  case (substitution u c v d)
  then show ?thesis
    by (cases u) (auto intro: edit1.substitution)
qed

lemma edits_first: "edits n t u \<Longrightarrow> edit1 s t \<Longrightarrow> edits (Suc n) s u"
proof (induction rule: edits.induct)
  case (none t)
  then show ?case using edits.more [OF edits.none] by blast
next
  case (more n t v u)
  then show ?case by (blast intro: edits.more)
qed

lemma edits_Cons: "edits n s t \<Longrightarrow> edits n (x # s) (x # t)"
  by (induction rule: edits.induct) (auto intro: edits.intros edit1_Cons)

lemma edits_sym: "edits n s t \<Longrightarrow> edits n t s"
  by (induction rule: edits.induct) (auto intro: edits.none edits_first edit1_sym)

lemma edits_rev: "edits n s t \<Longrightarrow> edits n (rev s) (rev t)"
  by (induction rule: edits.induct) (auto intro: edits.intros edit1_rev)

lemma edits_insert_all: "edits (length t) [] t"
proof (induction t)
  case Nil
  show ?case by (simp add: edits.none)
next
  case (Cons y t)
  have "edits (length t) [y] (y # t)" using Cons by (rule edits_Cons)
  then show ?case using edits_first [OF _ edit1_ins_head [of "[]" y]] by simp
qed

lemma edits_lev: "edits (lev s t) s t"
proof (induction s t rule: lev.induct)
  case (1 t)
  show ?case by (simp add: edits_insert_all)
next
  case (2 x s)
  have "edits (length (x # s)) [] (x # s)" by (rule edits_insert_all)
  then show ?case using edits_sym by fastforce
next
  case (3 x s y t)
  have a: "edits (lev s t + (if x = y then 0 else 1)) (x # s) (y # t)"
  proof (cases "x = y")
    case True
    then show ?thesis using edits_Cons [OF "3.IH"(1)] by simp
  next
    case False
    then show ?thesis
      using edits_first [OF edits_Cons [OF "3.IH"(1), of y] edit1_sub_head [of x s y]] by simp
  qed
  have b: "edits (lev (x # s) t + 1) (x # s) (y # t)"
    using edits.more [OF "3.IH"(2) edit1_ins_head [of t y]] by simp
  have c: "edits (lev s (y # t) + 1) (x # s) (y # t)"
    using edits_first [OF "3.IH"(3) edit1_del_head [of x s]] by simp
  show ?case using a b c by (simp add: min_def)
qed

lemma lev_Nil2: "lev s [] = length s"
  by (cases s) auto

lemma lev_Cons_le: "lev (x # s) t \<le> Suc (lev s t)"
  by (cases t) (auto simp add: lev_Nil2)

lemma lev_Cons2_le: "lev s (y # t) \<le> Suc (lev s t)"
  by (cases s) auto

lemma lev_step: "edit1 t u \<Longrightarrow> lev s u \<le> Suc (lev s t)"
proof (induction s t arbitrary: u rule: lev.induct)
  case (1 t)
  then show ?case by (induction rule: edit1.induct) auto
next
  case (2 x s)
  then obtain c where "u = [c]" using edit1_Nil by blast
  then show ?case by simp
next
  case (3 x s y t)
  from edit1_Cons_cases [OF "3.prems"]
  consider "u = t" | c where "u = c # y # t" | d where "u = d # t"
    | t' where "u = y # t'" "edit1 t t'" by blast
  then show ?case
  proof cases
    case 1
    have "lev (x # s) t \<le> Suc (lev s t)" by (rule lev_Cons_le)
    moreover have "lev s t \<le> Suc (lev s (y # t))"
      using "3.IH"(3) [OF edit1_del_head] .
    ultimately show ?thesis using 1 by (simp add: min_def)
  next
    case 2
    show ?thesis unfolding 2 by (rule lev_Cons2_le)
  next
    case 3
    have "lev s (d # t) \<le> Suc (lev s (y # t))"
      using "3.IH"(3) [OF edit1_sub_head] .
    then show ?thesis using 3 by (auto simp add: min_def)
  next
    case 4
    have "lev s t' \<le> Suc (lev s t)" using "3.IH"(1) [OF 4(2)] .
    moreover have "lev (x # s) t' \<le> Suc (lev (x # s) t)" using "3.IH"(2) [OF 4(2)] .
    moreover have "lev s (y # t') \<le> Suc (lev s (y # t))"
      using "3.IH"(3) [OF edit1_Cons [OF 4(2)]] .
    ultimately show ?thesis using 4(1) by (auto simp add: min_def)
  qed
qed

lemma lev_refl: "lev s s = 0"
  by (induction s) auto

lemma lev_least: "edits n s t \<Longrightarrow> lev s t \<le> n"
proof (induction rule: edits.induct)
  case (none s)
  show ?case by (simp add: lev_refl)
next
  case (more n s t u)
  then show ?case using lev_step [of t u s] by simp
qed

lemma lev_sym: "lev s t = lev t s"
  by (meson edits_lev edits_sym lev_least le_antisym)

lemma lev_rev: "lev (rev s) (rev t) = lev s t"
proof (rule le_antisym)
  show "lev (rev s) (rev t) \<le> lev s t"
    by (rule lev_least [OF edits_rev [OF edits_lev]])
  have "edits (lev (rev s) (rev t)) (rev (rev s)) (rev (rev t))"
    by (rule edits_rev [OF edits_lev])
  then show "lev s t \<le> lev (rev s) (rev t)"
    using lev_least by simp
qed

lemma lev_same_head: "lev (x # s) (x # t) = lev s t"
proof -
  have "lev s t \<le> Suc (lev (x # s) t)"
    using lev_least [OF edits_first [OF edits_lev [of "x # s" t] edit1_ins_head [of s x]]] .
  moreover have "lev s t \<le> Suc (lev s (x # t))"
    using lev_least [OF edits.more [OF edits_lev [of s "x # t"] edit1_del_head [of x t]]] .
  ultimately show ?thesis by (simp add: min_def)
qed

lemma lev_Cons_Cons:
  "lev (x # s) (y # t) =
     (if x = y then lev s t else min (lev s t + 1) (min (lev (x # s) t + 1) (lev s (y # t) + 1)))"
  by (simp add: lev_same_head del: lev.simps) simp

lemma lev_snoc_snoc:
  "lev (s @ [x]) (t @ [y]) =
     (if x = y then lev s t else min (lev s t + 1) (min (lev (s @ [x]) t + 1) (lev s (t @ [y]) + 1)))"
proof -
  have "lev (s @ [x]) (t @ [y]) = lev (x # rev s) (y # rev t)"
    using lev_rev [of "s @ [x]" "t @ [y]"] by simp
  also have "\<dots> = (if x = y then lev (rev s) (rev t)
      else min (lev (rev s) (rev t) + 1)
             (min (lev (x # rev s) (rev t) + 1) (lev (rev s) (y # rev t) + 1)))"
    by (rule lev_Cons_Cons)
  also have "lev (x # rev s) (rev t) = lev (s @ [x]) t"
    using lev_rev [of "s @ [x]" t] by simp
  also have "lev (rev s) (y # rev t) = lev s (t @ [y])"
    using lev_rev [of s "t @ [y]"] by simp
  finally show ?thesis by (simp add: lev_rev)
qed



section \<open>The loops compute the recurrence\<close>

lemma dist_0: "dist a b 0 j = min (length a) j"
  by (simp add: dist_def)

lemma dist_col0: "dist a b i 0 = min (length b) i"
  by (simp add: dist_def lev_Nil2)

lemma dist_step:
  assumes "0 < i" "i \<le> length b" "0 < j" "j \<le> length a"
  shows "dist a b i j =
     (if b ! (i - 1) = a ! (j - 1) then dist a b (i - 1) (j - 1)
      else min (dist a b (i - 1) (j - 1) + 1) (min (dist a b i (j - 1) + 1) (dist a b (i - 1) j + 1)))"
proof -
  obtain i' j' where ij: "i = Suc i'" "j = Suc j'"
    using assms by (metis Suc_pred)
  have ti: "take i b = take i' b @ [b ! i']"
    using assms ij by (simp add: take_Suc_conv_app_nth)
  have tj: "take j a = take j' a @ [a ! j']"
    using assms ij by (simp add: take_Suc_conv_app_nth)
  have "dist a b i j = lev (take i' b @ [b ! i']) (take j' a @ [a ! j'])"
    by (simp add: dist_def ti tj)
  also have "\<dots> = (if b ! i' = a ! j' then lev (take i' b) (take j' a)
      else min (lev (take i' b) (take j' a) + 1)
             (min (lev (take i' b @ [b ! i']) (take j' a) + 1)
                  (lev (take i' b) (take j' a @ [a ! j']) + 1)))"
    by (rule lev_snoc_snoc)
  finally show ?thesis
    using ij ti tj by (simp add: dist_def)
qed

lemma init_rows_eq:
  "length m = i \<Longrightarrow> i \<le> Suc n \<Longrightarrow> init_rows i n m = Some (m @ map (\<lambda>k. [k]) [i..<Suc n])"
proof (induction i n m rule: init_rows.induct)
  case (1 i n m)
  show ?case
  proof (cases "i \<le> n")
    case True
    have st: "store m i [i] = Some (m @ [[i]])"
      using "1.prems" by (simp add: store_def)
    have "init_rows (i + 1) n (m @ [[i]]) = Some ((m @ [[i]]) @ map (\<lambda>k. [k]) [i + 1..<Suc n])"
      using "1.IH" [OF True st] "1.prems" True by simp
    moreover have "[i..<Suc n] = i # [i + 1..<Suc n]"
      using True by (simp add: upt_conv_Cons)
    ultimately show ?thesis
      using True st by (subst init_rows.simps) simp
  next
    case False
    then have "i = Suc n" using "1.prems" by simp
    then show ?thesis by (subst init_rows.simps) simp
  qed
qed

lemma init_cols_eq:
  "0 < j \<Longrightarrow> j \<le> Suc n \<Longrightarrow> init_cols j n ([0..<j] # ms) = Some ([0..<Suc n] # ms)"
proof (induction j n "[0..<j] # ms" arbitrary: ms rule: init_cols.induct)
  case (1 j n)
  show ?case
  proof (cases "j \<le> n")
    case True
    have st: "set_cell ([0..<j] # ms) 0 j j = Some ([0..<j + 1] # ms)"
      by (simp add: set_cell_def load_def store_def)
    have "init_cols (j + 1) n ([0..<j + 1] # ms) = Some ([0..<Suc n] # ms)"
      using "1.hyps" [OF True st] True by simp
    then show ?thesis
      using True st by (subst init_cols.simps) simp
  next
    case False
    then have "j = Suc n" using "1.prems" by simp
    then show ?thesis by (subst init_cols.simps) simp
  qed
qed

lemma init_cols_0: "init_cols 0 n ([0] # ms) = Some ([0..<Suc n] # ms)"
proof -
  have "set_cell ([0] # ms) 0 0 0 = Some ([0] # ms)"
    by (simp add: set_cell_def load_def store_def)
  then have "init_cols 0 n ([0] # ms) = init_cols 1 n ([0..<1] # ms)"
    by (subst init_cols.simps) simp
  then show ?thesis using init_cols_eq [of 1 n ms] by simp
qed


lemma cell_row:
  "i < length m \<Longrightarrow> m ! i = map f [0..<n] \<Longrightarrow> j < n \<Longrightarrow> cell m i j = Some (f j)"
  by (simp add: cell_def load_def)

lemma set_cell_append:
  "i < length m \<Longrightarrow> length (m ! i) = j \<Longrightarrow> set_cell m i j v = Some (m[i := m ! i @ [v]])"
  by (simp add: set_cell_def load_def store_def)

lemma new_cell_eq:
  assumes len: "length m = Suc (length b)"
    and i: "0 < i" "i \<le> length b" and j: "0 < j" "j \<le> length a"
    and prev: "m ! (i - 1) = full_row a b (i - 1)"
    and cur: "m ! i = map (dist a b i) [0..<j]"
  shows "new_cell a b m i j = Some (dist a b i j)"
proof -
  have c1: "cell m (i - 1) (j - 1) = Some (dist a b (i - 1) (j - 1))"
    using len i j prev by (intro cell_row [where n = "Suc (length a)"]) (auto simp add: full_row_def)
  have c2: "cell m i (j - 1) = Some (dist a b i (j - 1))"
    using len i j cur by (intro cell_row [where n = j]) auto
  have c3: "cell m (i - 1) j = Some (dist a b (i - 1) j)"
    using len i j prev by (intro cell_row [where n = "Suc (length a)"]) (auto simp add: full_row_def)
  have "i - 1 < length b" "j - 1 < length a"
    using i j by auto
  then have ch: "(charAt b (i - 1) = charAt a (j - 1)) = (b ! (i - 1) = a ! (j - 1))"
    unfolding charAt_def by simp
  show ?thesis
    unfolding new_cell_def ch c1 c2 c3 dist_step [OF i j] by simp
qed

lemma inner_loop_eq:
  assumes "length m = Suc (length b)" "0 < i" "i \<le> length b" "0 < j" "j \<le> Suc (length a)"
    and "m ! (i - 1) = full_row a b (i - 1)"
    and "m ! i = map (dist a b i) [0..<j]"
  shows "inner_loop a b i j m = Some (m[i := full_row a b i])"
  using assms
proof (induction a b i j m rule: inner_loop.induct)
  case (1 a b i j m)
  show ?case
  proof (cases "j \<le> length a")
    case True
    let ?m' = "m[i := map (dist a b i) [0..<j + 1]]"
    have nc: "new_cell a b m i j = Some (dist a b i j)"
      using "1.prems" True by (intro new_cell_eq) auto
    have sc: "set_cell m i j (dist a b i j) = Some ?m'"
      using "1.prems" set_cell_append [of i m j "dist a b i j"] by simp
    have "inner_loop a b i (j + 1) ?m' = Some (?m'[i := full_row a b i])"
    proof (rule "1.IH" [OF True nc sc])
      show "?m' ! (i - 1) = full_row a b (i - 1)"
        using "1.prems" by simp
      show "?m' ! i = map (dist a b i) [0..<j + 1]"
        using "1.prems" by simp
    qed (use "1.prems" True in auto)
    then show ?thesis
      using True nc sc by (subst inner_loop.simps) simp
  next
    case False
    then have "j = Suc (length a)" using "1.prems" by simp
    then have "m ! i = full_row a b i"
      using "1.prems" by (simp add: full_row_def)
    then have "m[i := full_row a b i] = m"
      by (metis list_update_id)
    then show ?thesis
      using False by (subst inner_loop.simps) simp
  qed
qed

lemma outer_loop_eq:
  assumes "length m = Suc (length b)" "0 < i" "i \<le> Suc (length b)"
    and "\<And>k. k < i \<Longrightarrow> m ! k = full_row a b k"
    and "\<And>k. i \<le> k \<Longrightarrow> k \<le> length b \<Longrightarrow> m ! k = [k]"
  shows "outer_loop a b i m = Some (map (full_row a b) [0..<Suc (length b)])"
  using assms
proof (induction a b i m rule: outer_loop.induct)
  case (1 a b i m)
  show ?case
  proof (cases "i \<le> length b")
    case True
    let ?m' = "m[i := full_row a b i]"
    have "m ! i = map (dist a b i) [0..<1]"
      using "1.prems"(5) [of i] True by (simp add: dist_col0)
    then have il: "inner_loop a b i 1 m = Some ?m'"
      using "1.prems" True by (intro inner_loop_eq) auto
    have "outer_loop a b (i + 1) ?m' = Some (map (full_row a b) [0..<Suc (length b)])"
    proof (rule "1.IH" [OF True il])
      fix k assume "k < i + 1"
      then show "?m' ! k = full_row a b k"
        using "1.prems" True by (cases "k = i") auto
    next
      fix k assume "i + 1 \<le> k" "k \<le> length b"
      then show "?m' ! k = [k]"
        using "1.prems" by simp
    qed (use "1.prems" True in auto)
    then show ?thesis
      using True il by (subst outer_loop.simps) simp
  next
    case False
    then have "i = Suc (length b)" using "1.prems" by simp
    then have "m = map (full_row a b) [0..<Suc (length b)]"
      using "1.prems" by (intro nth_equalityI) (auto simp add: nth_append simp del: upt_Suc)
    then show ?thesis
      using False by (subst outer_loop.simps) simp
  qed
qed

lemma getLevenshteinDistance_lev:
  assumes "a \<noteq> []" "b \<noteq> []"
  shows "getLevenshteinDistance a b = Some (lev b a)"
proof -
  let ?rest = "map (\<lambda>k. [k]) [1..<Suc (length b)]"
  let ?m2 = "[0..<Suc (length a)] # ?rest"
  have "[0..<Suc (length b)] = 0 # [1..<Suc (length b)]"
    by (simp add: upt_conv_Cons del: upt_Suc)
  then have m1: "init_rows 0 (length b) [] = Some ([0] # ?rest)"
    using init_rows_eq [of "[]" 0 "length b"] by (simp del: upt_Suc)
  have m2: "init_cols 0 (length a) ([0] # ?rest) = Some ?m2"
    by (rule init_cols_0)
  have row0: "[0..<Suc (length a)] = full_row a b 0"
    unfolding full_row_def by (intro nth_equalityI) (auto simp add: dist_0 simp del: upt_Suc)
  have m3: "outer_loop a b 1 ?m2 = Some (map (full_row a b) [0..<Suc (length b)])"
  proof (rule outer_loop_eq)
    fix k :: nat assume "k < 1"
    then show "?m2 ! k = full_row a b k" using row0 by simp
  next
    fix k assume "1 \<le> k" "k \<le> length b"
    then show "?m2 ! k = [k]"
      by (cases k) (auto simp del: upt_Suc)
  qed (simp_all del: upt_Suc)
  have "cell (map (full_row a b) [0..<Suc (length b)]) (length b) (length a)
      = Some (dist a b (length b) (length a))"
    by (intro cell_row [where n = "Suc (length a)"]) (auto simp add: full_row_def simp del: upt_Suc)
  then show ?thesis
    using assms m1 m2 m3 by (simp add: getLevenshteinDistance_def dist_def del: upt_Suc)
qed


section \<open>Normalisation and similarity\<close>













lemma lev_eq_0: "lev s t = 0 \<Longrightarrow> s = t"
  by (induction s t rule: lev.induct) (auto split: if_splits)

lemma lev_pos: "s \<noteq> t \<Longrightarrow> 0 < lev s t"
  using lev_eq_0 by fastforce


lemma edit_distance_unique: "is_edit_distance d s t \<Longrightarrow> d = lev s t"
  unfolding is_edit_distance_def
  by (meson edits_lev lev_least le_antisym)

lemma calculateSimilarity_eq:
  "calculateSimilarity a b =
     Some (Similarity_spec (trim (toLowerCase a)) (trim (toLowerCase b))
             (lev (trim (toLowerCase a)) (trim (toLowerCase b))))"
proof -
  let ?s1 = "trim (toLowerCase a)" and ?s2 = "trim (toLowerCase b)"
  have o: "orElse (Some a) [] = a" "orElse (Some b) [] = b"
    by (simp_all add: orElse_def)
  show ?thesis
  proof (cases "?s1 = ?s2 \<or> ?s1 = [] \<or> ?s2 = []")
    case True
    then show ?thesis
      by (auto simp add: calculateSimilarity_def o Similarity_spec_def Let_def)
  next
    case False
    then have g: "getLevenshteinDistance ?s1 ?s2 = Some (lev ?s1 ?s2)"
      using getLevenshteinDistance_lev [of ?s1 ?s2] by (simp add: lev_sym)
    have "0 < max (length ?s1) (length ?s2)" using False by (simp add: max_def)
    then show ?thesis
      using False g
      by (simp add: calculateSimilarity_def o Similarity_spec_def Let_def algebra_simps)
  qed
qed





section \<open>The claims about similarity and postcodes\<close>


text \<open>
  Claim C5. Similarity is symmetric: exchanging the two strings gives the same score.
\<close>

theorem calculateSimilarity_symmetric: "calculateSimilarity a b = calculateSimilarity b a"
proof -
  let ?s = "trim (toLowerCase a)" and ?t = "trim (toLowerCase b)"
  have "Similarity_spec ?s ?t (lev ?s ?t) = Similarity_spec ?t ?s (lev ?t ?s)"
    unfolding Similarity_spec_def lev_sym [of ?s ?t] by (auto simp add: max.commute)
  then show ?thesis
    by (simp only: calculateSimilarity_eq)
qed







section \<open>The report of the matching logic\<close>

lemma checks_performMatching:
  "checks (performMatching rd jd) =
     (let dd = prepareDocData jd;
          regFullAddress = trim (houseNo rd @ '' '' @ street rd);
          dobMatch = (dob rd = dob_d dd);
          pcMatch = (normalizePostcode (postcode rd) = normalizePostcode (postcode_d dd));
          lnSim = calculateSimilarity (lastName rd) (lastName_d dd);
          fnSim = calculateSimilarity (firstName rd) (firstName_d dd);
          adSim = calculateSimilarity regFullAddress (addressLine dd);
          citySim = calculateSimilarity (city rd) (city_d dd);
          isUKDL = (type_d dd = ''DRIVING_LICENSE'' \<and> country dd = ''GBR'')
      in [\<lparr>field = ''Date of Birth'', reg = dob rd, doc = dob_d dd, match = dobMatch,
            message = (if dobMatch then ''Match'' else ''Mismatch'')\<rparr>,
          \<lparr>field = ''Postcode'', reg = normalizePostcode (postcode rd),
            doc = normalizePostcode (postcode_d dd), match = pcMatch,
            message = (if pcMatch then ''Match'' else ''Mismatch'')\<rparr>,
          \<lparr>field = ''Last Name'', reg = lastName rd, doc = lastName_d dd,
            match = num_ge lnSim 85, message = ''Similarity: '' @ toFixed0 lnSim @ ''%''\<rparr>,
          \<lparr>field = ''First Name'', reg = firstName rd, doc = firstName_d dd,
            match = num_ge fnSim 85, message = ''Similarity: '' @ toFixed0 fnSim @ ''%''\<rparr>,
          \<lparr>field = ''Address Match'', reg = regFullAddress, doc = addressLine dd,
            match = num_ge adSim 70, message = ''Similarity: '' @ toFixed0 adSim @ ''%''\<rparr>,
          \<lparr>field = ''City'', reg = city rd, doc = city_d dd, match = num_ge citySim 80,
            message = ''Similarity: '' @ toFixed0 citySim @ ''%''\<rparr>,
          \<lparr>field = ''Document Rules'', reg = ''UK Logic'',
            doc = (if isUKDL then ''UK Driving License'' else country dd @ '' '' @ type_d dd),
            match = isUKDL,
            message = (if isUKDL then ''Address verified via License.''
                       else ''Non-UK Driving License. Proof of Address required.'')\<rparr>])"
  by (simp add: performMatching_def push_def Let_def)

lemma passed_performMatching:
  "passed (performMatching rd jd) =
     (dob rd = dob_d (prepareDocData jd)
      \<and> normalizePostcode (postcode rd) = normalizePostcode (postcode_d (prepareDocData jd))
      \<and> num_ge (calculateSimilarity (lastName rd) (lastName_d (prepareDocData jd))) 85
      \<and> num_ge (calculateSimilarity (firstName rd) (firstName_d (prepareDocData jd))) 85
      \<and> num_ge (calculateSimilarity (trim (houseNo rd @ '' '' @ street rd))
            (addressLine (prepareDocData jd))) 70
      \<and> type_d (prepareDocData jd) = ''DRIVING_LICENSE'' \<and> country (prepareDocData jd) = ''GBR'')"
  by (simp add: performMatching_def push_def Let_def)



lemma scenario_D:
  "performMatching
     \<lparr>firstName = ''Ann'', lastName = ''Lee'', dob = ''1990-01-01'', houseNo = ''1'',
      street = ''Oak'', flat = '''', postcode = ''N1 1AA'', city = ''Derby''\<rparr>
     \<lparr>document = Some \<lparr>firstName_j = Some ''ANN'', lastName_j = Some ''Lee'',
        dob_j = Some ''1990-01-01'',
        address = Some \<lparr>postalCode = Some ''n11aa'', line1 = Some ''1 Oak'',
                         city_j = Some ''Darbi''\<rparr>,
        type_j = Some ''DRIVING_LICENSE'', issuingCountry = Some ''GBR''\<rparr>\<rparr>
   = \<lparr>passed = True,
      checks =
        [\<lparr>field = ''Date of Birth'', reg = ''1990-01-01'', doc = ''1990-01-01'', match = True,
           message = ''Match''\<rparr>,
         \<lparr>field = ''Postcode'', reg = ''N11AA'', doc = ''N11AA'', match = True,
           message = ''Match''\<rparr>,
         \<lparr>field = ''Last Name'', reg = ''Lee'', doc = ''Lee'', match = True,
           message = ''Similarity: 100%''\<rparr>,
         \<lparr>field = ''First Name'', reg = ''Ann'', doc = ''ANN'', match = True,
           message = ''Similarity: 100%''\<rparr>,
         \<lparr>field = ''Address Match'', reg = ''1 Oak'', doc = ''1 Oak'', match = True,
           message = ''Similarity: 100%''\<rparr>,
         \<lparr>field = ''City'', reg = ''Derby'', doc = ''Darbi'', match = False,
           message = ''Similarity: 60%''\<rparr>,
         \<lparr>field = ''Document Rules'', reg = ''UK Logic'', doc = ''UK Driving License'',
           match = True, message = ''Address verified via License.''\<rparr>]\<rparr>"
  by code_simp

lemma scenario_D_city: "calculateSimilarity ''Derby'' ''Darbi'' = Some 60"
  by code_simp


lemma isUKDL_payload:
  "(type_d (prepareDocData jd) = ''DRIVING_LICENSE'' \<and> country (prepareDocData jd) = ''GBR'')
   = (document jd \<bind> type_j = Some ''DRIVING_LICENSE'' \<and> document jd \<bind> issuingCountry = Some ''GBR'')"
  by (auto simp add: prepareDocData_def orElse_def split: option.splits if_splits)

lemma scenario_C:
  "performMatching
     \<lparr>firstName = ''Ann'', lastName = ''Lee'', dob = ''1990-01-01'', houseNo = ''1'',
      street = ''Oak'', flat = '''', postcode = ''N1 1AA'', city = ''Derby''\<rparr>
     \<lparr>document = Some \<lparr>firstName_j = Some ''Ann'', lastName_j = Some ''Lee'',
        dob_j = Some ''1990-01-01'',
        address = Some \<lparr>postalCode = Some ''N1 1AA'', line1 = Some ''1 Oak'',
                         city_j = Some ''Derby''\<rparr>,
        type_j = Some ''PASSPORT'', issuingCountry = Some ''FRA''\<rparr>\<rparr>
   = \<lparr>passed = False,
      checks =
        [\<lparr>field = ''Date of Birth'', reg = ''1990-01-01'', doc = ''1990-01-01'', match = True,
           message = ''Match''\<rparr>,
         \<lparr>field = ''Postcode'', reg = ''N11AA'', doc = ''N11AA'', match = True,
           message = ''Match''\<rparr>,
         \<lparr>field = ''Last Name'', reg = ''Lee'', doc = ''Lee'', match = True,
           message = ''Similarity: 100%''\<rparr>,
         \<lparr>field = ''First Name'', reg = ''Ann'', doc = ''Ann'', match = True,
           message = ''Similarity: 100%''\<rparr>,
         \<lparr>field = ''Address Match'', reg = ''1 Oak'', doc = ''1 Oak'', match = True,
           message = ''Similarity: 100%''\<rparr>,
         \<lparr>field = ''City'', reg = ''Derby'', doc = ''Derby'', match = True,
           message = ''Similarity: 100%''\<rparr>,
         \<lparr>field = ''Document Rules'', reg = ''UK Logic'', doc = ''FRA PASSPORT'',
           match = False,
           message = ''Non-UK Driving License. Proof of Address required.''\<rparr>]\<rparr>"
  by code_simp



section \<open>The claims about the match report and the relay\<close>

text \<open>
  Claim C1. For every registration record and payload, \<open>passed\<close> is the conjunction of the
  match flags of the Date of Birth, Postcode, Last Name, First Name, Address and Document
  Rules checks (positions 0, 1, 2, 3, 4 and 6 of the report). The City check has no
  influence: changing the city on either side leaves \<open>passed\<close> unchanged, and in the
  scenario where the six checks pass and the city similarity is 60, \<open>passed\<close> is true.
\<close>

theorem passed_is_conjunction_of_six:
  "map field (checks (performMatching rd jd)) =
     [''Date of Birth'', ''Postcode'', ''Last Name'', ''First Name'', ''Address Match'', ''City'',
      ''Document Rules'']
   \<and> passed (performMatching rd jd) =
       (match (checks (performMatching rd jd) ! 0) \<and> match (checks (performMatching rd jd) ! 1)
        \<and> match (checks (performMatching rd jd) ! 2) \<and> match (checks (performMatching rd jd) ! 3)
        \<and> match (checks (performMatching rd jd) ! 4) \<and> match (checks (performMatching rd jd) ! 6))
   \<and> passed (performMatching (rd\<lparr>city := c\<rparr>)
         \<lparr>document = Some (d\<lparr>address := Some (ad\<lparr>city_j := c'\<rparr>)\<rparr>)\<rparr>)
       = passed (performMatching rd \<lparr>document = Some (d\<lparr>address := Some ad\<rparr>)\<rparr>)
   \<and> calculateSimilarity ''Derby'' ''Darbi'' = Some 60
   \<and> \<not> match (checks (performMatching
         \<lparr>firstName = ''Ann'', lastName = ''Lee'', dob = ''1990-01-01'', houseNo = ''1'',
          street = ''Oak'', flat = '''', postcode = ''N1 1AA'', city = ''Derby''\<rparr>
         \<lparr>document = Some \<lparr>firstName_j = Some ''ANN'', lastName_j = Some ''Lee'',
            dob_j = Some ''1990-01-01'',
            address = Some \<lparr>postalCode = Some ''n11aa'', line1 = Some ''1 Oak'',
                             city_j = Some ''Darbi''\<rparr>,
            type_j = Some ''DRIVING_LICENSE'', issuingCountry = Some ''GBR''\<rparr>\<rparr>) ! 5)
   \<and> passed (performMatching
         \<lparr>firstName = ''Ann'', lastName = ''Lee'', dob = ''1990-01-01'', houseNo = ''1'',
          street = ''Oak'', flat = '''', postcode = ''N1 1AA'', city = ''Derby''\<rparr>
         \<lparr>document = Some \<lparr>firstName_j = Some ''ANN'', lastName_j = Some ''Lee'',
            dob_j = Some ''1990-01-01'',
            address = Some \<lparr>postalCode = Some ''n11aa'', line1 = Some ''1 Oak'',
                             city_j = Some ''Darbi''\<rparr>,
            type_j = Some ''DRIVING_LICENSE'', issuingCountry = Some ''GBR''\<rparr>\<rparr>)"
proof -
  have 1: "map field (checks (performMatching rd jd)) =
     [''Date of Birth'', ''Postcode'', ''Last Name'', ''First Name'', ''Address Match'', ''City'',
      ''Document Rules'']"
    by (simp add: checks_performMatching Let_def)
  have 2: "passed (performMatching rd jd) =
       (match (checks (performMatching rd jd) ! 0) \<and> match (checks (performMatching rd jd) ! 1)
        \<and> match (checks (performMatching rd jd) ! 2) \<and> match (checks (performMatching rd jd) ! 3)
        \<and> match (checks (performMatching rd jd) ! 4) \<and> match (checks (performMatching rd jd) ! 6))"
    by (simp add: checks_performMatching passed_performMatching Let_def)
  have 3: "passed (performMatching (rd\<lparr>city := c\<rparr>)
         \<lparr>document = Some (d\<lparr>address := Some (ad\<lparr>city_j := c'\<rparr>)\<rparr>)\<rparr>)
       = passed (performMatching rd \<lparr>document = Some (d\<lparr>address := Some ad\<rparr>)\<rparr>)"
    by (simp add: passed_performMatching prepareDocData_def)
  show ?thesis
    using 1 2 3 by (simp only: scenario_D scenario_D_city) simp
qed


text \<open>
  Claim C4. The Document Rules check passes exactly when the payload's document type is
  DRIVING_LICENSE and its issuing country is GBR. When it fails, its message says that a
  proof of address is required, and \<open>passed\<close> is false whatever the other checks give.
\<close>

theorem document_rules:
  "field (checks (performMatching rd jd) ! 6) = ''Document Rules''
   \<and> match (checks (performMatching rd jd) ! 6) =
       (document jd \<bind> type_j = Some ''DRIVING_LICENSE''
        \<and> document jd \<bind> issuingCountry = Some ''GBR'')
   \<and> (\<not> match (checks (performMatching rd jd) ! 6) \<longrightarrow>
         message (checks (performMatching rd jd) ! 6)
           = ''Non-UK Driving License. Proof of Address required.''
         \<and> \<not> passed (performMatching rd jd))"
proof -
  have m: "match (checks (performMatching rd jd) ! 6) =
      (type_d (prepareDocData jd) = ''DRIVING_LICENSE'' \<and> country (prepareDocData jd) = ''GBR'')"
    by (simp add: checks_performMatching Let_def)
  have 1: "field (checks (performMatching rd jd) ! 6) = ''Document Rules''"
    by (simp add: checks_performMatching Let_def)
  have 2: "\<not> match (checks (performMatching rd jd) ! 6) \<longrightarrow>
         message (checks (performMatching rd jd) ! 6)
           = ''Non-UK Driving License. Proof of Address required.''"
    by (simp add: checks_performMatching Let_def)
  have 3: "\<not> match (checks (performMatching rd jd) ! 6) \<longrightarrow> \<not> passed (performMatching rd jd)"
    unfolding m by (simp add: passed_performMatching)
  show ?thesis
    using 1 2 3 m isUKDL_payload [of jd] by blast
qed

text \<open>
  The scenario of a French passport whose other fields all agree with the registration.
\<close>

theorem document_rules_witness:
  "map match (checks (performMatching
     \<lparr>firstName = ''Ann'', lastName = ''Lee'', dob = ''1990-01-01'', houseNo = ''1'',
      street = ''Oak'', flat = '''', postcode = ''N1 1AA'', city = ''Derby''\<rparr>
     \<lparr>document = Some \<lparr>firstName_j = Some ''Ann'', lastName_j = Some ''Lee'',
        dob_j = Some ''1990-01-01'',
        address = Some \<lparr>postalCode = Some ''N1 1AA'', line1 = Some ''1 Oak'',
                         city_j = Some ''Derby''\<rparr>,
        type_j = Some ''PASSPORT'', issuingCountry = Some ''FRA''\<rparr>\<rparr>))
     = [True, True, True, True, True, True, False]
   \<and> message (checks (performMatching
     \<lparr>firstName = ''Ann'', lastName = ''Lee'', dob = ''1990-01-01'', houseNo = ''1'',
      street = ''Oak'', flat = '''', postcode = ''N1 1AA'', city = ''Derby''\<rparr>
     \<lparr>document = Some \<lparr>firstName_j = Some ''Ann'', lastName_j = Some ''Lee'',
        dob_j = Some ''1990-01-01'',
        address = Some \<lparr>postalCode = Some ''N1 1AA'', line1 = Some ''1 Oak'',
                         city_j = Some ''Derby''\<rparr>,
        type_j = Some ''PASSPORT'', issuingCountry = Some ''FRA''\<rparr>\<rparr>) ! 6)
     = ''Non-UK Driving License. Proof of Address required.''
   \<and> \<not> passed (performMatching
     \<lparr>firstName = ''Ann'', lastName = ''Lee'', dob = ''1990-01-01'', houseNo = ''1'',
      street = ''Oak'', flat = '''', postcode = ''N1 1AA'', city = ''Derby''\<rparr>
     \<lparr>document = Some \<lparr>firstName_j = Some ''Ann'', lastName_j = Some ''Lee'',
        dob_j = Some ''1990-01-01'',
        address = Some \<lparr>postalCode = Some ''N1 1AA'', line1 = Some ''1 Oak'',
                         city_j = Some ''Derby''\<rparr>,
        type_j = Some ''PASSPORT'', issuingCountry = Some ''FRA''\<rparr>\<rparr>)"
proof -
  let ?rd = "\<lparr>firstName = ''Ann'', lastName = ''Lee'', dob = ''1990-01-01'', houseNo = ''1'',
      street = ''Oak'', flat = '''', postcode = ''N1 1AA'', city = ''Derby''\<rparr>"
  let ?jd = "\<lparr>document = Some \<lparr>firstName_j = Some ''Ann'', lastName_j = Some ''Lee'',
        dob_j = Some ''1990-01-01'',
        address = Some \<lparr>postalCode = Some ''N1 1AA'', line1 = Some ''1 Oak'',
                         city_j = Some ''Derby''\<rparr>,
        type_j = Some ''PASSPORT'', issuingCountry = Some ''FRA''\<rparr>\<rparr>"
  have ms: "map match (checks (performMatching ?rd ?jd)) = [True, True, True, True, True, True, False]"
    by (simp only: scenario_C) simp
  have "match (checks (performMatching ?rd ?jd) ! 6) = False"
    using document_rules [of ?rd ?jd] by simp
  then have "message (checks (performMatching ?rd ?jd) ! 6)
           = ''Non-UK Driving License. Proof of Address required.''
         \<and> \<not> passed (performMatching ?rd ?jd)"
    using document_rules [of ?rd ?jd] by blast
  then show ?thesis using ms by blast
qed




text \<open>
  Claim C9. When the token or the secret is absent or empty, every request receives
  status 500 with the JSON error body, whatever its method and its query: the test of the
  credentials comes before the dispatch on the method, so that neither the 400 nor the
  405 response is reached.
\<close>

theorem missing_credentials_500:
  assumes "falsy (JUMIO_TOKEN e) \<or> falsy (JUMIO_SECRET e)"
  shows "onRequest e rq uuid upstream =
    Inr \<lparr>status = 500, headers = [], body = ErrorJson ''Missing API Keys in Cloudflare''\<rparr>"
  using assms by (simp add: onRequest_def)

text \<open>
  Without the secret, a GET request with no reference and a DELETE request both
  receive 500.
\<close>

theorem missing_credentials_500_witness:
  "falsy (JUMIO_SECRET \<lparr>JUMIO_TOKEN = Some ''token'', JUMIO_SECRET = None\<rparr>)
   \<and> onRequest \<lparr>JUMIO_TOKEN = Some ''token'', JUMIO_SECRET = None\<rparr>
        \<lparr>requestMethod = ''GET'', searchParams = [], json = Rejected ''no body''\<rparr>
        ''uuid'' (\<lambda>c. Resolved ''{}'')
      = Inr \<lparr>status = 500, headers = [], body = ErrorJson ''Missing API Keys in Cloudflare''\<rparr>
   \<and> onRequest \<lparr>JUMIO_TOKEN = Some ''token'', JUMIO_SECRET = None\<rparr>
        \<lparr>requestMethod = ''DELETE'', searchParams = [(''scanReference'', ''abc'')],
         json = Rejected ''no body''\<rparr>
        ''uuid'' (\<lambda>c. Resolved ''{}'')
      = Inr \<lparr>status = 500, headers = [], body = ErrorJson ''Missing API Keys in Cloudflare''\<rparr>"
proof -
  let ?e = "\<lparr>JUMIO_TOKEN = Some ''token'', JUMIO_SECRET = None\<rparr>"
  have h: "falsy (JUMIO_TOKEN ?e) \<or> falsy (JUMIO_SECRET ?e)"
    by (simp add: falsy_def)
  show ?thesis
    using missing_credentials_500 [OF h] by (simp add: falsy_def)
qed

text \<open>
  Claim C7, as stated, fails when the credentials are not configured: a GET request
  without the reference and a DELETE request then receive 500, not 400 and 405.
\<close>

theorem bad_request_without_credentials_counterexample:
  "requestMethod \<lparr>requestMethod = ''GET'', searchParams = [], json = Rejected ''no body''\<rparr> = ''GET''
   \<and> map_of (searchParams \<lparr>requestMethod = ''GET'', searchParams = [], json = Rejected ''no body''\<rparr>)
        ''scanReference'' = None
   \<and> onRequest \<lparr>JUMIO_TOKEN = None, JUMIO_SECRET = None\<rparr>
        \<lparr>requestMethod = ''GET'', searchParams = [], json = Rejected ''no body''\<rparr>
        ''uuid'' (\<lambda>c. Resolved ''{}'')
      = Inr \<lparr>status = 500, headers = [], body = ErrorJson ''Missing API Keys in Cloudflare''\<rparr>
   \<and> onRequest \<lparr>JUMIO_TOKEN = None, JUMIO_SECRET = None\<rparr>
        \<lparr>requestMethod = ''DELETE'', searchParams = [], json = Rejected ''no body''\<rparr>
        ''uuid'' (\<lambda>c. Resolved ''{}'')
      = Inr \<lparr>status = 500, headers = [], body = ErrorJson ''Missing API Keys in Cloudflare''\<rparr>"
  by (simp add: onRequest_def falsy_def)

text \<open>
  Claim C7, amended. When both credentials are configured, a GET request whose reference
  query parameter (\<^verbatim>\<open>scanReference\<close>) is missing or empty receives status 400, and a
  request whose method is neither POST nor GET receives status 405.
\<close>

theorem bad_request_and_method_not_allowed:
  assumes "\<not> falsy (JUMIO_TOKEN e)" "\<not> falsy (JUMIO_SECRET e)"
  shows "(requestMethod rq = ''GET'' \<and> falsy (map_of (searchParams rq) ''scanReference'') \<longrightarrow>
           onRequest e rq uuid upstream =
             Inr \<lparr>status = 400, headers = [], body = Plain ''Missing Reference''\<rparr>)
       \<and> (requestMethod rq \<noteq> ''POST'' \<and> requestMethod rq \<noteq> ''GET'' \<longrightarrow>
           onRequest e rq uuid upstream =
             Inr \<lparr>status = 405, headers = [], body = Plain ''Method not allowed''\<rparr>)"
  using assms by (simp add: onRequest_def Let_def)

text \<open>
  With both credentials, a GET request that names its parameter \<^verbatim>\<open>reference\<close> receives
  400, and a DELETE request receives 405.
\<close>

theorem bad_request_and_method_not_allowed_witness:
  "onRequest \<lparr>JUMIO_TOKEN = Some ''token'', JUMIO_SECRET = Some ''secret''\<rparr>
        \<lparr>requestMethod = ''GET'', searchParams = [(''reference'', ''abc'')],
         json = Rejected ''no body''\<rparr>
        ''uuid'' (\<lambda>c. Resolved ''{}'')
      = Inr \<lparr>status = 400, headers = [], body = Plain ''Missing Reference''\<rparr>
   \<and> onRequest \<lparr>JUMIO_TOKEN = Some ''token'', JUMIO_SECRET = Some ''secret''\<rparr>
        \<lparr>requestMethod = ''DELETE'', searchParams = [(''scanReference'', ''abc'')],
         json = Rejected ''no body''\<rparr>
        ''uuid'' (\<lambda>c. Resolved ''{}'')
      = Inr \<lparr>status = 405, headers = [], body = Plain ''Method not allowed''\<rparr>"
proof -
  let ?e = "\<lparr>JUMIO_TOKEN = Some ''token'', JUMIO_SECRET = Some ''secret''\<rparr>"
  have h: "\<not> falsy (JUMIO_TOKEN ?e)" "\<not> falsy (JUMIO_SECRET ?e)"
    by (simp_all add: falsy_def)
  have f: "falsy (map_of [(''reference'', ''abc'')] ''scanReference'')"
    by (simp add: falsy_def)
  show ?thesis
    using bad_request_and_method_not_allowed [OF h,
        of "\<lparr>requestMethod = ''GET'', searchParams = [(''reference'', ''abc'')],
             json = Rejected ''no body''\<rparr>" "''uuid''" "\<lambda>c. Resolved ''{}''"]
      bad_request_and_method_not_allowed [OF h,
        of "\<lparr>requestMethod = ''DELETE'', searchParams = [(''scanReference'', ''abc'')],
             json = Rejected ''no body''\<rparr>" "''uuid''" "\<lambda>c. Resolved ''{}''"]
      f
    by simp
qed

end
